theory Spec2Isabelle
  imports Main
begin

section \<open>Values, exceptions and the request\<close>

text \<open>
  The views of \<^verbatim>\<open>openstack_auth/views.py\<close> as functions over an explicit request
  state. Every exception of the source is a value of \<open>exn\<close>; every call of a
  collaborator that lives outside the file (Django, keystoneclient, the sibling modules
  \<^verbatim>\<open>user.py\<close> and \<^verbatim>\<open>forms.py\<close>) and every log line is recorded, in order, in a
  list of events.
\<close>

datatype exn = ClientException | KeyError | IndexError | TypeError | OtherError

datatype level = DEBUG | INFO | WARNING | ERROR

record user =
  username :: string
  token_id :: string
  endpoint :: string
  is_authenticated :: bool

text \<open>
  The session dictionary. A field is \<open>None\<close> when the key is absent.
  \<open>region_name\<close> is stored from \<^verbatim>\<open>regions.get(region)\<close>, which may be Python's
  \<^verbatim>\<open>None\<close>: the inner option. \<open>token_list\<close> holds a reference to a list object.
\<close>

record session =
  region_endpoint :: "string option"
  region_name :: "string option option"
  region_tokens :: "(string \<rightharpoonup> string) option"
  token_list :: "nat option"

record request =
  session :: session
  user :: user
  REQUEST :: "string \<rightharpoonup> string"
  get_host :: string

record settings =
  AVAILABLE_REGIONS :: "(string \<times> string) list option"
  OPENSTACK_SSL_NO_VERIFY :: "bool option"
  LOGIN_REDIRECT_URL :: string
  OPENSTACK_KEYSTONE_URL :: string

datatype response = Redirect string | LogoutThenLogin

text \<open>
  The body of an HTTP exchange with the identity service: nested dictionaries with
  strings at the leaves.
\<close>

datatype json = JString string | JObject "(string \<times> json) list"

datatype event =
    Log level string
  | Call_django_auth "string option" string string
  | Call_django_do_login
  | Call_django_logout
  | Call_set_session_from_user
  | Call_create_user_from_token
  | Call_keystone_client string bool
  | Call_tokens_authenticate string string string
  | Call_tokens_delete string string bool
  | Call_http_request string string json
  | Thread_start nat

text \<open>
  The collaborators the views call. \<open>django_auth\<close> is
  \<^verbatim>\<open>django.contrib.auth.authenticate\<close> (arguments: request, username, unscoped token,
  auth_url; password and tenant are always \<^verbatim>\<open>None\<close>), \<open>django_do_login\<close> is
  \<^verbatim>\<open>django.contrib.auth.login\<close>, \<open>django_logout\<close> is the session effect of
  \<^verbatim>\<open>logout_then_login\<close> (its response is \<open>LogoutThenLogin\<close>),
  \<open>keystone_client\<close> is the constructor \<^verbatim>\<open>keystone_client.Client(endpoint, insecure)\<close>
  (the exception it raised, if any), \<open>tokens_authenticate\<close> is
  \<^verbatim>\<open>client.tokens.authenticate\<close> of the client built with (endpoint, insecure), with
  arguments tenant_id and token. \<open>is_safe_url\<close> is the validator the module imports
  from \<^verbatim>\<open>django.utils.http\<close>, or from the sibling module \<^verbatim>\<open>utils.py\<close> (neither is
  among the sources), with arguments url and host.
  They are arbitrary functions: nothing is assumed of them but that they treat the
  session's mappings as values.
\<close>

record collaborators =
  django_auth :: "request \<Rightarrow> string option \<Rightarrow> string \<Rightarrow> string \<Rightarrow> exn + user option"
  django_do_login :: "request \<Rightarrow> user option \<Rightarrow> request"
  django_logout :: "request \<Rightarrow> request"
  set_session_from_user :: "request \<Rightarrow> user \<Rightarrow> request"
  create_user_from_token :: "request \<Rightarrow> string \<Rightarrow> string \<Rightarrow> user"
  keystone_client :: "string \<Rightarrow> bool \<Rightarrow> exn option"
  tokens_authenticate :: "string \<Rightarrow> bool \<Rightarrow> string \<Rightarrow> string \<Rightarrow> exn + string"
  is_safe_url :: "string \<Rightarrow> string \<Rightarrow> bool"

type_synonym outcome = "(exn + request \<times> response) \<times> event list"

section \<open>Settings and Python's dict\<close>

text \<open>\<^verbatim>\<open>getattr(settings, 'AVAILABLE_REGIONS', [])\<close>\<close>

definition available_regs :: "settings \<Rightarrow> (string \<times> string) list" where
  "available_regs st = (case AVAILABLE_REGIONS st of None \<Rightarrow> [] | Some rs \<Rightarrow> rs)"

text \<open>\<^verbatim>\<open>getattr(settings, 'OPENSTACK_SSL_NO_VERIFY', False)\<close>\<close>

definition insecure :: "settings \<Rightarrow> bool" where
  "insecure st = (case OPENSTACK_SSL_NO_VERIFY st of None \<Rightarrow> False | Some b \<Rightarrow> b)"

text \<open>
  \<^verbatim>\<open>dict(pairs)\<close>: the pairs are inserted in order, so a later pair replaces an
  earlier one with the same key.
\<close>

fun py_dict_from :: "('k \<rightharpoonup> 'v) \<Rightarrow> ('k \<times> 'v) list \<Rightarrow> ('k \<rightharpoonup> 'v)" where
  "py_dict_from m [] = m"
| "py_dict_from m (kv # kvs) = py_dict_from (m(fst kv \<mapsto> snd kv)) kvs"

definition py_dict :: "('k \<times> 'v) list \<Rightarrow> ('k \<rightharpoonup> 'v)" where
  "py_dict kvs = py_dict_from Map.empty kvs"

text \<open>
  Modelled from the spec: \<^verbatim>\<open>Login.get_region_choices\<close> of \<^verbatim>\<open>forms.py\<close>, which is
  not among the sources. The Session Projector writes the "display name looked up from
  configured region list": the choices are the configured (auth_url, display name) pairs.
\<close>

definition get_region_choices :: "settings \<Rightarrow> (string \<times> string) list" where
  "get_region_choices st = available_regs st"

section \<open>Safe redirect targets\<close>

text \<open>
  Modelled from the spec: the rule the spec gives for a redirect target, which "must be
  a same-host relative URL". A relative URL has no scheme: no \<^verbatim>\<open>:\<close> comes before its
  first \<^verbatim>\<open>/\<close>, \<^verbatim>\<open>?\<close> or \<^verbatim>\<open>#\<close>. When it starts with \<^verbatim>\<open>//\<close> it names a host, which
  must then be the host of the request; otherwise it names none and stays on that host.
  A backslash counts as a slash, as browsers read it. The empty string is no URL, and
  a URL has no blank and no control character.
\<close>

definition url_char :: "char \<Rightarrow> bool" where
  "url_char c = ((32::nat) < of_char c \<and> of_char c \<noteq> (127::nat))"

definition slashes :: "string \<Rightarrow> string" where
  "slashes url = map (\<lambda>c. if c = CHR 0x5C then CHR ''/'' else c) url"

definition url_delimiter :: "char \<Rightarrow> bool" where
  "url_delimiter c = (c = CHR '':'' \<or> c = CHR ''/'' \<or> c = CHR ''?'' \<or> c = CHR ''#'')"

definition has_scheme :: "string \<Rightarrow> bool" where
  "has_scheme url =
     (case dropWhile (\<lambda>c. \<not> url_delimiter c) url of
        [] \<Rightarrow> False
      | c # _ \<Rightarrow> c = CHR '':'')"

definition named_host :: "string \<Rightarrow> string option" where
  "named_host url =
     (case url of
        a # b # rest \<Rightarrow>
          if a = CHR ''/'' \<and> b = CHR ''/''
          then Some (takeWhile (\<lambda>c. c \<noteq> CHR ''/'' \<and> c \<noteq> CHR ''?'' \<and> c \<noteq> CHR ''#'') rest)
          else None
      | _ \<Rightarrow> None)"

definition same_host_relative_url :: "string \<Rightarrow> string \<Rightarrow> bool" where
  "same_host_relative_url url host =
     (url \<noteq> [] \<and> list_all url_char url \<and> \<not> has_scheme (slashes url) \<and>
      (case named_host (slashes url) of None \<Rightarrow> True | Some n \<Rightarrow> n \<noteq> [] \<and> n = host))"

text \<open>
  The guard both switch views share:
  \<^verbatim>\<open>redirect_to = request.REQUEST.get(redirect_field_name, '')\<close>, replaced by
  \<^verbatim>\<open>settings.LOGIN_REDIRECT_URL\<close> when it is not safe.
\<close>

definition redirect_to :: "settings \<Rightarrow> collaborators \<Rightarrow> request \<Rightarrow> string \<Rightarrow> string" where
  "redirect_to st ext req redirect_field_name =
     (let r = (case REQUEST req redirect_field_name of None \<Rightarrow> [] | Some v \<Rightarrow> v)
      in if \<not> is_safe_url ext r (get_host req) then LOGIN_REDIRECT_URL st else r)"

section \<open>The region switcher\<close>

text \<open>
  \<^verbatim>\<open>region_urls = [r[0] for r in available_regs if r[1] == region_name]\<close>
\<close>

definition region_urls :: "(string \<times> string) list \<Rightarrow> string \<Rightarrow> string list" where
  "region_urls regs name = map fst (filter (\<lambda>r. snd r = name) regs)"

text \<open>
  The body of \<^verbatim>\<open>switch_region\<close>, which the decorator \<^verbatim>\<open>login_required\<close> runs for
  an authenticated user; \<open>name\<close> is its argument \<^verbatim>\<open>region_name\<close>. The two look-ups of the \<^verbatim>\<open>try\<close> block raise
  \<^verbatim>\<open>KeyError\<close> on a missing key, and the handler returns the logout response.
\<close>

definition switch_region :: "settings \<Rightarrow> collaborators \<Rightarrow> request \<Rightarrow> string \<Rightarrow> string \<Rightarrow> outcome" where
  "switch_region st ext req name redirect_field_name =
     (case region_urls (available_regs st) name of
        [] \<Rightarrow> (Inr (django_logout ext req, LogoutThenLogin), [Call_django_logout])
      | auth_url # _ \<Rightarrow>
          (let ev1 = [Log DEBUG (''Switching to '' @ name @ '' at '' @ auth_url)] in
           case region_tokens (session req) of
             None \<Rightarrow> (Inr (django_logout ext req, LogoutThenLogin), ev1 @ [Call_django_logout])
           | Some rts \<Rightarrow>
               (case rts auth_url of
                  None \<Rightarrow> (Inr (django_logout ext req, LogoutThenLogin), ev1 @ [Call_django_logout])
                | Some unscoped_token \<Rightarrow>
                    (let ev2 = ev1 @ [Call_django_auth (Some (username (user req))) unscoped_token auth_url] in
                     case django_auth ext req (Some (username (user req))) unscoped_token auth_url of
                       Inl e \<Rightarrow> (Inl e, ev2)
                     | Inr u \<Rightarrow>
                         (let req1 = django_do_login ext req u;
                              ev3 = ev2 @ [Call_django_do_login]
                          in if \<not> is_authenticated (user req1)
                             then (Inr (django_logout ext req1, LogoutThenLogin), ev3 @ [Call_django_logout])
                             else
                               (let req2 = set_session_from_user ext req1 (user req1);
                                    regions = py_dict (get_region_choices st);
                                    region = endpoint (user req2);
                                    new_name = regions region;
                                    req3 = req2\<lparr>session := (session req2)\<lparr>region_endpoint := Some region\<rparr>\<rparr>;
                                    req4 = req3\<lparr>session := (session req3)\<lparr>region_name := Some new_name\<rparr>\<rparr>;
                                    req5 = req4\<lparr>session := (session req4)\<lparr>region_tokens := Some rts\<rparr>\<rparr>;
                                    target = redirect_to st ext req5 redirect_field_name
                                in (Inr (req5, Redirect target),
                                    ev3 @ [Call_set_session_from_user,
                                           Log DEBUG (''Redirecting to '' @ target)])))))))"

section \<open>The tenant switcher\<close>

text \<open>
  The body of \<^verbatim>\<open>switch\<close>. The keystone client is built before the \<^verbatim>\<open>try\<close>,
  so an exception of its constructor leaves the view. Inside the \<^verbatim>\<open>try\<close> only
  \<^verbatim>\<open>ClientException\<close> is handled; any other exception of
  \<^verbatim>\<open>client.tokens.authenticate\<close> leaves the view. \<open>ep\<close> is the local
  \<^verbatim>\<open>endpoint\<close>.
\<close>

definition switch :: "settings \<Rightarrow> collaborators \<Rightarrow> request \<Rightarrow> string \<Rightarrow> string \<Rightarrow> outcome" where
  "switch st ext req tenant_id redirect_field_name =
     (let who = username (user req);
          ev1 = [Log DEBUG (''Switching to tenant '' @ tenant_id @ '' for user '' @
                            [CHR 0x22] @ who @ [CHR 0x22] @ ''.'')];
          ep = endpoint (user req);
          ev2 = ev1 @ [Call_keystone_client ep (insecure st),
                       Call_tokens_authenticate ep tenant_id (token_id (user req))]
      in case keystone_client ext ep (insecure st) of
           Some e \<Rightarrow> (Inl e, ev1 @ [Call_keystone_client ep (insecure st)])
         | None \<Rightarrow>
      (case (case tokens_authenticate ext ep (insecure st) tenant_id (token_id (user req)) of
                 Inr t \<Rightarrow>
                   Inr (Some t,
                        [Log INFO (''Tenant switch successful for user '' @
                                   [CHR 0x22] @ who @ [CHR 0x22] @ ''.'')])
               | Inl e \<Rightarrow>
                   if e = ClientException
                   then Inr (None,
                             [Log WARNING (''Tenant switch failed for user '' @
                                           [CHR 0x22] @ who @ [CHR 0x22] @ ''.''),
                              Log ERROR ''An error occurred while switching sessions.''])
                   else Inl e) of
           Inl e \<Rightarrow> (Inl e, ev2)
         | Inr (token, ev3) \<Rightarrow>
             (let target = redirect_to st ext req redirect_field_name
              in case token of
                   None \<Rightarrow> (Inr (req, Redirect target), ev2 @ ev3)
                 | Some t \<Rightarrow>
                     (let u = create_user_from_token ext req t ep;
                          req1 = set_session_from_user ext req u
                      in (Inr (req1, Redirect target),
                          ev2 @ ev3 @ [Call_create_user_from_token, Call_set_session_from_user])))))"

section \<open>The token reaper\<close>

text \<open>
  An item of the token list is a Python sequence; \<^verbatim>\<open>token_tuple[0]\<close> and
  \<^verbatim>\<open>token_tuple[1]\<close> raise \<^verbatim>\<open>IndexError\<close> on a sequence that is too short.
  \<open>tokens_delete\<close> stands for building the keystone client and calling
  \<^verbatim>\<open>client.tokens.delete\<close>, both inside the \<^verbatim>\<open>try\<close>: it takes the state \<open>'w\<close> of
  the identity service and returns the exception it raised, if any, and the new state.
  \<open>delete_loop\<close> is the \<^verbatim>\<open>for\<close> loop, with the events so far as accumulator.
\<close>

type_synonym token_tuple = "string list"

type_synonym 'w tokens_delete = "bool \<Rightarrow> string \<Rightarrow> string \<Rightarrow> 'w \<Rightarrow> exn option \<times> 'w"

fun delete_loop ::
  "'w tokens_delete \<Rightarrow> bool \<Rightarrow> event list \<Rightarrow> 'w \<Rightarrow> token_tuple list \<Rightarrow> exn option \<times> event list \<times> 'w" where
  "delete_loop del ins ev w [] = (None, ev, w)"
| "delete_loop del ins ev w (token_tuple # rest) =
     (case token_tuple of
        ep # token # _ \<Rightarrow>
          (case del ins ep token w of
             (None, w') \<Rightarrow> delete_loop del ins (ev @ [Call_tokens_delete ep token ins]) w' rest
           | (Some e, w') \<Rightarrow>
               if e = ClientException
               then delete_loop del ins
                      (ev @ [Call_tokens_delete ep token ins, Log INFO ''Could not delete token''])
                      w' rest
               else (Some e, ev @ [Call_tokens_delete ep token ins], w'))
      | _ \<Rightarrow> (Some IndexError, ev, w))"

definition delete_all_tokens ::
  "'w tokens_delete \<Rightarrow> settings \<Rightarrow> token_tuple list \<Rightarrow> 'w \<Rightarrow> exn option \<times> event list \<times> 'w" where
  "delete_all_tokens del st tokens w = delete_loop del (insecure st) [] w tokens"

text \<open>The deletion attempts among the events, and the attempt a well-formed item stands for.\<close>

fun is_delete_call :: "event \<Rightarrow> bool" where
  "is_delete_call (Call_tokens_delete _ _ _) = True"
| "is_delete_call _ = False"

definition attempts :: "event list \<Rightarrow> event list" where
  "attempts ev = filter is_delete_call ev"

definition attempt_of :: "bool \<Rightarrow> token_tuple \<Rightarrow> event" where
  "attempt_of ins t = Call_tokens_delete (t ! 0) (t ! 1) ins"

section \<open>Logout and the dispatched copy of the token list\<close>

text \<open>
  Python's lists hold references. An item of a token list is an object of the store,
  either an immutable tuple or a mutable list of strings; a token list is a list object
  holding the references of its items. \<open>lists h a\<close> are the item references of the
  list object \<open>a\<close>, \<open>objects h r\<close> is the item object \<open>r\<close>, and every list
  reference below \<open>next_ref h\<close> is allocated. \<^verbatim>\<open>list(x)\<close> allocates a new list
  object holding the same item references as \<open>x\<close>: a shallow copy.
  \<open>contents h a\<close> is what iterating over the list object \<open>a\<close> yields.
\<close>

datatype pyobj = PyTuple "string list" | PyList "string list"

fun elements :: "pyobj \<Rightarrow> token_tuple" where
  "elements (PyTuple xs) = xs"
| "elements (PyList xs) = xs"

fun is_tuple :: "pyobj \<Rightarrow> bool" where
  "is_tuple (PyTuple xs) = True"
| "is_tuple (PyList xs) = False"

record heap =
  lists :: "nat \<Rightarrow> nat list"
  objects :: "nat \<Rightarrow> pyobj"
  next_ref :: nat

definition contents :: "heap \<Rightarrow> nat \<Rightarrow> token_tuple list" where
  "contents h a = map (\<lambda>r. elements (objects h r)) (lists h a)"

definition py_list :: "heap \<Rightarrow> nat \<Rightarrow> nat \<times> heap" where
  "py_list h a =
     (next_ref h, h\<lparr>lists := (lists h)(next_ref h := lists h a), next_ref := Suc (next_ref h)\<rparr>)"

text \<open>
  What the request side can do to the store through the session's token list \<open>a\<close>:
  \<open>Mutate_list f\<close> is any in-place change of the list object itself (append,
  deletion, assignment of items, ...), given as the function from its old to its new item
  references; \<open>Mutate_item r f\<close> is an in-place change of the item object \<open>r\<close>, which
  takes effect on a mutable list only (on a tuple Python raises \<^verbatim>\<open>TypeError\<close>).
\<close>

datatype mutation =
    Mutate_list "nat list \<Rightarrow> nat list"
  | Mutate_item nat "string list \<Rightarrow> string list"

fun is_list_mutation :: "mutation \<Rightarrow> bool" where
  "is_list_mutation (Mutate_list f) = True"
| "is_list_mutation (Mutate_item r f) = False"

fun mutate :: "nat \<Rightarrow> mutation \<Rightarrow> heap \<Rightarrow> heap" where
  "mutate a (Mutate_list f) h = h\<lparr>lists := (lists h)(a := f (lists h a))\<rparr>"
| "mutate a (Mutate_item r f) h =
     (case objects h r of
        PyTuple xs \<Rightarrow> h
      | PyList xs \<Rightarrow> h\<lparr>objects := (objects h)(r := PyList (f xs))\<rparr>)"

text \<open>
  \<^verbatim>\<open>logout\<close>: the result is the request after \<^verbatim>\<open>django_logout\<close> with its response,
  the reference handed to the started thread (if one is started), the store and the
  events.
\<close>

definition logout ::
  "collaborators \<Rightarrow> request \<Rightarrow> heap \<Rightarrow> (request \<times> response) \<times> nat option \<times> heap \<times> event list" where
  "logout ext req h =
     (let ev = [Log INFO (''Logging out user '' @ [CHR 0x22] @ username (user req) @
                          [CHR 0x22] @ ''.'')]
      in case token_list (session req) of
           None \<Rightarrow> ((django_logout ext req, LogoutThenLogin), None, h, ev @ [Call_django_logout])
         | Some a \<Rightarrow>
             (let (c, h') = py_list h a
              in ((django_logout ext req, LogoutThenLogin), Some c, h',
                  ev @ [Thread_start c, Call_django_logout])))"

text \<open>
  The started thread runs \<^verbatim>\<open>delete_all_tokens\<close> on the list object it was handed:
  it iterates over that object in the store as it is when the thread comes to run.
\<close>

definition run_thread ::
  "'w tokens_delete \<Rightarrow> settings \<Rightarrow> heap \<Rightarrow> nat \<Rightarrow> 'w \<Rightarrow> exn option \<times> event list \<times> 'w" where
  "run_thread del st h c w = delete_all_tokens del st (contents h c) w"

section \<open>The ticket exchange\<close>

text \<open>
  \<^verbatim>\<open>body[key]\<close> on the parsed response: \<^verbatim>\<open>KeyError\<close> on a missing key,
  \<^verbatim>\<open>TypeError\<close> when the value is a string.
\<close>

fun getitem :: "json \<Rightarrow> string \<Rightarrow> exn + json" where
  "getitem (JObject kvs) k = (case py_dict kvs k of None \<Rightarrow> Inl KeyError | Some v \<Rightarrow> Inr v)"
| "getitem (JString s) k = Inl TypeError"

text \<open>
  \<^verbatim>\<open>_retrieve_cas_token\<close> and \<^verbatim>\<open>_retrieve_cas_url\<close> (an Isabelle name cannot start
  with an underscore). \<open>urljoin\<close> is \<^verbatim>\<open>urlparse.urljoin\<close>; \<open>http\<close> is
  \<^verbatim>\<open>HTTPClient(auth_url, insecure).request(url, method, body)\<close>: it takes the state
  \<open>'w\<close> of the identity service and returns the body of the response, or the exception
  raised, and the new state.
\<close>

type_synonym 'w http_client =
  "string \<Rightarrow> bool \<Rightarrow> string \<Rightarrow> string \<Rightarrow> json \<Rightarrow> 'w \<Rightarrow> (exn + json) \<times> 'w"

definition retrieve_cas_token ::
  "(string \<Rightarrow> string \<Rightarrow> string) \<Rightarrow> 'w http_client \<Rightarrow> string \<Rightarrow> bool \<Rightarrow> string \<Rightarrow> string \<Rightarrow> 'w
   \<Rightarrow> (exn + json) \<times> event list \<times> 'w" where
  "retrieve_cas_token urljoin http auth_url ins ticket service w =
     (let params = JObject [(''auth'', JObject [(''casCredentials'',
                     JObject [(''ticket'', JString ticket), (''service'', JString service)])])];
          url = urljoin auth_url ''tokens'';
          ev = [Call_http_request (auth_url @ ''/tokens'') ''POST'' params]
      in case http auth_url ins (auth_url @ ''/tokens'') ''POST'' params w of
           (Inl e, w') \<Rightarrow> (Inl e, ev, w')
         | (Inr body, w') \<Rightarrow>
             (case getitem body ''access'' of
                Inl e \<Rightarrow> (Inl e, ev, w')
              | Inr access \<Rightarrow>
                  (case getitem access ''token'' of
                     Inl e \<Rightarrow> (Inl e, ev, w')
                   | Inr token \<Rightarrow> (getitem token ''id'', ev, w'))))"

definition retrieve_cas_url ::
  "(string \<Rightarrow> string \<Rightarrow> string) \<Rightarrow> 'w http_client \<Rightarrow> string \<Rightarrow> bool \<Rightarrow> string \<Rightarrow> 'w
   \<Rightarrow> (exn + json) \<times> event list \<times> 'w" where
  "retrieve_cas_url urljoin http auth_url ins service w =
     (let params = JObject [(''auth'', JObject [(''casCredentials'',
                     JObject [(''service'', JString service)])])];
          url = urljoin auth_url ''tokens'';
          ev = [Call_http_request (auth_url @ ''/tokens'') ''POST'' params]
      in case http auth_url ins (auth_url @ ''/tokens'') ''POST'' params w of
           (Inl e, w') \<Rightarrow> (Inl e, ev, w')
         | (Inr body, w') \<Rightarrow> (getitem body ''cas_login_url'', ev, w'))"

section \<open>A concrete deployment\<close>

text \<open>
  Three configured regions, two of them with the display name East; a session that holds
  an unscoped token for the first East region only; collaborators that authenticate any
  token, rotate the session on login, refuse every tenant switch with a client error and
  validate redirect targets by the rule of the spec.
  \<open>dup_settings\<close> lists one auth_url under two display names.
\<close>

definition demo_settings :: settings where
  "demo_settings =
     \<lparr>AVAILABLE_REGIONS = Some [(''http://west:5000/v2.0'', ''West''),
                                (''http://east:5000/v2.0'', ''East''),
                                (''http://east2:5000/v2.0'', ''East'')],
      OPENSTACK_SSL_NO_VERIFY = None,
      LOGIN_REDIRECT_URL = ''/home'',
      OPENSTACK_KEYSTONE_URL = ''http://west:5000/v2.0''\<rparr>"

definition dup_settings :: settings where
  "dup_settings =
     \<lparr>AVAILABLE_REGIONS = Some [(''http://east:5000/v2.0'', ''East''),
                                (''http://east:5000/v2.0'', ''West'')],
      OPENSTACK_SSL_NO_VERIFY = None,
      LOGIN_REDIRECT_URL = ''/home'',
      OPENSTACK_KEYSTONE_URL = ''http://east:5000/v2.0''\<rparr>"

definition demo_user :: user where
  "demo_user =
     \<lparr>username = ''alice'', token_id = ''scoped-0'', endpoint = ''http://west:5000/v2.0'',
      is_authenticated = True\<rparr>"

definition demo_tokens :: "string \<rightharpoonup> string" where
  "demo_tokens = [''http://east:5000/v2.0'' \<mapsto> ''unscoped-east'']"

definition demo_session :: session where
  "demo_session =
     \<lparr>region_endpoint = Some ''http://west:5000/v2.0'', region_name = Some (Some ''West''),
      region_tokens = Some demo_tokens, token_list = Some 0\<rparr>"

definition demo_request :: request where
  "demo_request =
     \<lparr>session = demo_session, user = demo_user,
      REQUEST = [''next'' \<mapsto> ''/dashboard''], get_host = ''myapp.example''\<rparr>"


definition empty_session :: session where
  "empty_session =
     \<lparr>region_endpoint = None, region_name = None, region_tokens = None, token_list = None\<rparr>"

definition demo_ext :: collaborators where
  "demo_ext =
     \<lparr>django_auth = (\<lambda>req who tok url.
        Inr (Some \<lparr>username = (case who of None \<Rightarrow> [] | Some n \<Rightarrow> n), token_id = tok,
                   endpoint = url, is_authenticated = True\<rparr>)),
      django_do_login = (\<lambda>req u. case u of None \<Rightarrow> req
                                 | Some v \<Rightarrow> req\<lparr>session := empty_session, user := v\<rparr>),
      django_logout = (\<lambda>req. req\<lparr>session := empty_session\<rparr>),
      set_session_from_user = (\<lambda>req u. req),
      create_user_from_token = (\<lambda>req tok ep.
        \<lparr>username = username (user req), token_id = tok, endpoint = ep,
         is_authenticated = True\<rparr>),
      keystone_client = (\<lambda>ep ins. None),
      tokens_authenticate = (\<lambda>ep ins tenant tok. Inl ClientException),
      is_safe_url = same_host_relative_url\<rparr>"

text \<open>
  An identity service whose state counts the deletions asked of it, and which refuses
  the token \<open>''bad''\<close> with a client error.
\<close>

definition demo_delete :: "nat tokens_delete" where
  "demo_delete ins ep token w =
     (if token = ''bad'' then (Some ClientException, Suc w) else (None, Suc w))"

text \<open>
  An identity service whose state is the list of the deletions asked of it, and which
  refuses the token \<open>''bad''\<close> with a client error; a token list of three pairs.
\<close>

definition recording_delete :: "(string \<times> string) list tokens_delete" where
  "recording_delete ins ep token w =
     (if token = ''bad'' then Some ClientException else None, w @ [(ep, token)])"

definition demo_token_list :: "token_tuple list" where
  "demo_token_list =
     [[''http://west:5000/v2.0'', ''t1''],
      [''http://west:5000/v2.0'', ''bad''],
      [''http://east:5000/v2.0'', ''t3'']]"

text \<open>
  Two stores in which the list object 0 is the session's token list: in \<open>demo_heap\<close>
  its three items are tuples, in \<open>shared_heap\<close> its second item is a mutable list.
  \<open>demo_change\<close> is the assignment \<^verbatim>\<open>item[1] = 'other'\<close>.
\<close>

definition demo_heap :: heap where
  "demo_heap =
     \<lparr>lists = (\<lambda>a. if a = 0 then [0, 1, 2] else []),
      objects = (\<lambda>r. if r = 0 then PyTuple [''http://west:5000/v2.0'', ''t1'']
                       else if r = 1 then PyTuple [''http://west:5000/v2.0'', ''bad'']
                       else PyTuple [''http://east:5000/v2.0'', ''t3'']),
      next_ref = 1\<rparr>"

definition shared_heap :: heap where
  "shared_heap =
     \<lparr>lists = (\<lambda>a. if a = 0 then [0, 1] else []),
      objects = (\<lambda>r. if r = 0 then PyTuple [''http://west:5000/v2.0'', ''t1'']
                       else PyList [''http://west:5000/v2.0'', ''t2'']),
      next_ref = 1\<rparr>"

definition demo_change :: "string list \<Rightarrow> string list" where
  "demo_change xs = xs[1 := ''other'']"

text \<open>
  A stand-in for \<^verbatim>\<open>urljoin\<close> that returns what it computes for the base
  \<^verbatim>\<open>http://west:5000/v2.0\<close>, and an identity service whose state is the list of the
  requests made of it and which answers the ticket exchange at
  \<^verbatim>\<open>http://west:5000/v2.0/tokens\<close> only.
\<close>

definition demo_urljoin :: "string \<Rightarrow> string \<Rightarrow> string" where
  "demo_urljoin base path = ''http://west:5000/tokens''"

definition demo_http :: "(string \<times> string) list http_client" where
  "demo_http auth_url ins url method body w =
     (if url = ''http://west:5000/v2.0/tokens'' \<and> method = ''POST''
      then Inr (JObject [(''access'', JObject [(''token'', JObject [(''id'', JString ''unscoped-1'')])]),
                         (''cas_login_url'', JString ''https://cas.example/login'')])
      else Inl OtherError,
      w @ [(url, method)])"

section \<open>Resolving the region\<close>

lemma region_urls_Nil: "name \<notin> snd ` set regs \<Longrightarrow> region_urls regs name = []"
  by (induction regs) (auto simp: region_urls_def)

lemma region_urls_first:
  assumes "regs = pre @ (url, name) # post" and "name \<notin> snd ` set pre"
  shows "region_urls regs name = url # region_urls post name"
proof -
  have "filter (\<lambda>r. snd r = name) pre = []"
    using assms(2) by (induction pre) auto
  then show ?thesis using assms(1) by (simp add: region_urls_def)
qed

lemma region_urls_mem:
  assumes "region_urls regs name = url # others"
  shows "(url, name) \<in> set regs"
proof -
  have "url \<in> set (region_urls regs name)" using assms by simp
  then show ?thesis by (auto simp: region_urls_def)
qed

text \<open>
  C2. A region name that is the display name of no entry of \<open>AVAILABLE_REGIONS\<close>
  makes \<open>switch_region\<close> return the logout response: the outcome is a normal return
  (\<open>Inr\<close>, no exception), and the only collaborator called is \<open>django_logout\<close>.
\<close>

theorem switch_region_unknown_region:
  assumes "name \<notin> snd ` set (available_regs st)"
  shows "switch_region st ext req name rf =
           (Inr (django_logout ext req, LogoutThenLogin), [Call_django_logout])"
  using region_urls_Nil[OF assms] by (simp add: switch_region_def)

theorem switch_region_unknown_region_witness:
  "''North'' \<notin> snd ` set (available_regs demo_settings) \<and>
   switch_region demo_settings demo_ext demo_request ''North'' ''next'' =
     (Inr (demo_request\<lparr>session := empty_session\<rparr>, LogoutThenLogin), [Call_django_logout])"
proof -
  have h: "''North'' \<notin> snd ` set (available_regs demo_settings)"
    by (simp add: available_regs_def demo_settings_def)
  show ?thesis
    using h switch_region_unknown_region[OF h, of demo_ext demo_request "''next''"]
    by (simp add: demo_ext_def)
qed

text \<open>
  C3. When the requested region resolves to \<open>auth_url\<close> and the session has no
  \<open>region_tokens\<close> key, or its \<open>region_tokens\<close> has no entry for \<open>auth_url\<close>,
  \<open>switch_region\<close> returns the logout response, and its events are the debug line
  and the call of \<open>django_logout\<close>: \<open>django_auth\<close> is not called.
\<close>

theorem switch_region_missing_token:
  assumes urls: "region_urls (available_regs st) name = auth_url # others"
    and miss: "region_tokens (session req) = None \<or>
               (\<exists>rts. region_tokens (session req) = Some rts \<and> rts auth_url = None)"
  shows "switch_region st ext req name rf =
           (Inr (django_logout ext req, LogoutThenLogin),
            [Log DEBUG (''Switching to '' @ name @ '' at '' @ auth_url), Call_django_logout])"
  using miss by (auto simp: switch_region_def urls)

theorem switch_region_missing_token_witness:
  "region_urls (available_regs demo_settings) ''West'' = [''http://west:5000/v2.0''] \<and>
   region_tokens (session demo_request) = Some demo_tokens \<and>
   demo_tokens ''http://west:5000/v2.0'' = None \<and>
   switch_region demo_settings demo_ext demo_request ''West'' ''next'' =
     (Inr (demo_request\<lparr>session := empty_session\<rparr>, LogoutThenLogin),
      [Log DEBUG ''Switching to West at http://west:5000/v2.0'', Call_django_logout])"
proof -
  have u: "region_urls (available_regs demo_settings) ''West'' = [''http://west:5000/v2.0'']"
    by (simp add: region_urls_def available_regs_def demo_settings_def)
  have t: "region_tokens (session demo_request) = Some demo_tokens"
    by (simp add: demo_request_def demo_session_def)
  have n: "demo_tokens ''http://west:5000/v2.0'' = None"
    by (simp add: demo_tokens_def)
  have m: "region_tokens (session demo_request) = None \<or>
           (\<exists>rts. region_tokens (session demo_request) = Some rts \<and>
                  rts ''http://west:5000/v2.0'' = None)"
    using t n by simp
  show ?thesis
    using u t n switch_region_missing_token[OF u m, of demo_ext "''next''"]
    by (simp add: demo_ext_def)
qed

text \<open>
  C9. When \<open>(url, name)\<close> is the first entry of \<open>AVAILABLE_REGIONS\<close> with the
  display name \<open>name\<close> (other entries with that name may follow it),
  \<open>switch_region\<close> works with \<open>url\<close>: the debug line names it, the cached token is
  looked up under it, and the authentication is asked for it.
\<close>

theorem switch_region_first_match:
  assumes regs: "available_regs st = pre @ (url, name) # post"
    and first: "name \<notin> snd ` set pre"
  shows "let ev = snd (switch_region st ext req name rf);
             line = Log DEBUG (''Switching to '' @ name @ '' at '' @ url)
         in case region_tokens (session req) of
              None \<Rightarrow> ev = [line, Call_django_logout]
            | Some rts \<Rightarrow>
                (case rts url of
                   None \<Rightarrow> ev = [line, Call_django_logout]
                 | Some tok \<Rightarrow>
                     take 2 ev = [line, Call_django_auth (Some (username (user req))) tok url])"
  using region_urls_first[OF regs first]
  by (auto simp: switch_region_def Let_def split: option.splits sum.splits)

theorem switch_region_first_match_witness:
  "available_regs demo_settings =
     [(''http://west:5000/v2.0'', ''West'')] @
     (''http://east:5000/v2.0'', ''East'') # [(''http://east2:5000/v2.0'', ''East'')] \<and>
   ''East'' \<notin> snd ` set [(''http://west:5000/v2.0'', ''West'')] \<and>
   take 2 (snd (switch_region demo_settings demo_ext demo_request ''East'' ''next'')) =
     [Log DEBUG ''Switching to East at http://east:5000/v2.0'',
      Call_django_auth (Some ''alice'') ''unscoped-east'' ''http://east:5000/v2.0'']"
proof -
  have r: "available_regs demo_settings =
     [(''http://west:5000/v2.0'', ''West'')] @
     (''http://east:5000/v2.0'', ''East'') # [(''http://east2:5000/v2.0'', ''East'')]"
    by (simp add: available_regs_def demo_settings_def)
  have f: "''East'' \<notin> snd ` set [(''http://west:5000/v2.0'', ''West'')]"
    by simp
  show ?thesis
    using r f switch_region_first_match[OF r f, of demo_ext demo_request "''next''"]
    by (simp add: demo_request_def demo_session_def demo_tokens_def demo_user_def Let_def)
qed

lemma py_dict_from_miss: "k \<notin> fst ` set kvs \<Longrightarrow> py_dict_from m kvs k = m k"
  by (induction kvs arbitrary: m) auto

lemma py_dict_from_distinct:
  "distinct (map fst kvs) \<Longrightarrow> (k, v) \<in> set kvs \<Longrightarrow> py_dict_from m kvs k = Some v"
proof (induction kvs arbitrary: m)
  case Nil
  then show ?case by simp
next
  case (Cons kv kvs)
  show ?case
  proof (cases "kv = (k, v)")
    case True
    with Cons.prems have "k \<notin> fst ` set kvs" by auto
    then show ?thesis using True by (simp add: py_dict_from_miss)
  next
    case False
    with Cons show ?thesis by auto
  qed
qed

section \<open>A successful region switch\<close>

text \<open>
  The claim C1 as it is stated fails where one auth_url is configured under two display
  names: the switch to East succeeds, and the session's \<open>region_name\<close> becomes West,
  the name \<^verbatim>\<open>dict(Login.get_region_choices())\<close> keeps for that auth_url.
\<close>

theorem switch_region_region_name_counterexample:
  "region_urls (available_regs dup_settings) ''East'' = [''http://east:5000/v2.0''] \<and>
   region_tokens (session demo_request) = Some demo_tokens \<and>
   demo_tokens ''http://east:5000/v2.0'' = Some ''unscoped-east'' \<and>
   (case fst (switch_region dup_settings demo_ext demo_request ''East'' ''next'') of
      Inl e \<Rightarrow> False
    | Inr (r, resp) \<Rightarrow>
        resp = Redirect ''/dashboard'' \<and>
        is_authenticated (user r) \<and>
        endpoint (user r) = ''http://east:5000/v2.0'' \<and>
        region_endpoint (session r) = Some ''http://east:5000/v2.0'' \<and>
        region_name (session r) = Some (Some ''West'') \<and>
        region_name (session r) \<noteq> Some (Some ''East'') \<and>
        region_tokens (session r) = Some demo_tokens)"
  by (simp add: switch_region_def region_urls_def available_regs_def dup_settings_def
      demo_request_def demo_session_def demo_tokens_def demo_user_def demo_ext_def
      empty_session_def get_region_choices_def py_dict_def redirect_to_def
      same_host_relative_url_def has_scheme_def named_host_def slashes_def url_delimiter_def url_char_def
      Let_def)

text \<open>
  C1, amended. When the requested region resolves to \<open>auth_url\<close>, the session's
  \<open>region_tokens\<close> holds an unscoped token for it and the re-authentication leaves an
  authenticated user in the request, \<open>switch_region\<close> redirects, with
  \<open>region_endpoint\<close> the endpoint of that user, \<open>region_name\<close> the display name
  the dict of the region choices gives for that endpoint (the last configured entry wins;
  Python's \<^verbatim>\<open>None\<close> when there is none) and \<open>region_tokens\<close> the mapping read
  before the switch, whatever the login did to the session. When that endpoint is
  \<open>auth_url\<close> and no auth_url is configured twice, the two region fields are the
  auth_url and the display name of the requested region.
\<close>

theorem switch_region_success:
  assumes urls: "region_urls (available_regs st) name = auth_url # others"
    and cached: "region_tokens (session req) = Some rts" "rts auth_url = Some tok"
    and auth: "django_auth ext req (Some (username (user req))) tok auth_url = Inr u"
    and ok: "is_authenticated (user (django_do_login ext req u))"
    and req2: "req2 = set_session_from_user ext (django_do_login ext req u)
                        (user (django_do_login ext req u))"
  shows "\<exists>req' target. fst (switch_region st ext req name rf) = Inr (req', Redirect target) \<and>
           region_endpoint (session req') = Some (endpoint (user req2)) \<and>
           region_name (session req') =
             Some (py_dict (get_region_choices st) (endpoint (user req2))) \<and>
           region_tokens (session req') = Some rts \<and>
           (endpoint (user req2) = auth_url \<and> distinct (map fst (available_regs st))
              \<longrightarrow> region_endpoint (session req') = Some auth_url \<and>
                   region_name (session req') = Some (Some name))"
proof -
  have mem: "(auth_url, name) \<in> set (available_regs st)"
    using urls by (rule region_urls_mem)
  have d: "distinct (map fst (available_regs st)) \<Longrightarrow>
           py_dict (get_region_choices st) auth_url = Some name"
    using mem by (simp add: py_dict_def get_region_choices_def py_dict_from_distinct)
  show ?thesis
    using urls cached auth ok d
    by (auto simp: switch_region_def Let_def req2)
qed

theorem switch_region_success_witness:
  "region_urls (available_regs demo_settings) ''East'' =
     [''http://east:5000/v2.0'', ''http://east2:5000/v2.0''] \<and>
   region_tokens (session demo_request) = Some demo_tokens \<and>
   demo_tokens ''http://east:5000/v2.0'' = Some ''unscoped-east'' \<and>
   distinct (map fst (available_regs demo_settings)) \<and>
   (case fst (switch_region demo_settings demo_ext demo_request ''East'' ''next'') of
      Inl e \<Rightarrow> False
    | Inr (r, resp) \<Rightarrow>
        region_endpoint (session r) = Some ''http://east:5000/v2.0'' \<and>
        region_name (session r) = Some (Some ''East'') \<and>
        region_tokens (session r) = Some demo_tokens)"
proof -
  define u where "u = Some \<lparr>username = ''alice'', token_id = ''unscoped-east'',
                            endpoint = ''http://east:5000/v2.0'', is_authenticated = True\<rparr>"
  have a: "region_urls (available_regs demo_settings) ''East'' =
             ''http://east:5000/v2.0'' # [''http://east2:5000/v2.0'']"
    by (simp add: region_urls_def available_regs_def demo_settings_def)
  have b: "region_tokens (session demo_request) = Some demo_tokens"
    by (simp add: demo_request_def demo_session_def)
  have c: "demo_tokens ''http://east:5000/v2.0'' = Some ''unscoped-east''"
    by (simp add: demo_tokens_def)
  have d: "django_auth demo_ext demo_request (Some (username (user demo_request)))
             ''unscoped-east'' ''http://east:5000/v2.0'' = Inr u"
    by (simp add: demo_ext_def demo_request_def demo_user_def u_def)
  have e: "is_authenticated (user (django_do_login demo_ext demo_request u))"
    by (simp add: demo_ext_def u_def)
  have f: "distinct (map fst (available_regs demo_settings))"
    by (simp add: available_regs_def demo_settings_def)
  have g: "endpoint (user (set_session_from_user demo_ext (django_do_login demo_ext demo_request u)
             (user (django_do_login demo_ext demo_request u)))) = ''http://east:5000/v2.0''"
    by (simp add: demo_ext_def u_def)
  show ?thesis
    using a b c f g switch_region_success[OF a b c d e refl, where rf = "''next''"]
    by auto
qed

section \<open>The tenant switch and the redirect target\<close>

text \<open>
  C4. When the keystone client is built and its \<open>tokens_authenticate\<close> raises a
  client error, \<open>switch\<close> returns normally with a redirect and with the request,
  hence its session with \<open>region_endpoint\<close> and \<open>region_name\<close>, as it was: the
  events are the debug line, the two calls and the two log lines of the failure, and
  neither \<open>create_user_from_token\<close> nor \<open>set_session_from_user\<close> is called.
\<close>

theorem switch_client_error:
  assumes built: "keystone_client ext (endpoint (user req)) (insecure st) = None"
    and fails: "tokens_authenticate ext (endpoint (user req)) (insecure st) tenant_id
                  (token_id (user req)) = Inl ClientException"
  shows "switch st ext req tenant_id rf =
           (Inr (req, Redirect (redirect_to st ext req rf)),
            [Log DEBUG (''Switching to tenant '' @ tenant_id @ '' for user '' @
                        [CHR 0x22] @ username (user req) @ [CHR 0x22] @ ''.''),
             Call_keystone_client (endpoint (user req)) (insecure st),
             Call_tokens_authenticate (endpoint (user req)) tenant_id (token_id (user req)),
             Log WARNING (''Tenant switch failed for user '' @
                          [CHR 0x22] @ username (user req) @ [CHR 0x22] @ ''.''),
             Log ERROR ''An error occurred while switching sessions.''])"
  using built fails by (simp add: switch_def Let_def)

theorem switch_client_error_witness:
  "keystone_client demo_ext (endpoint (user demo_request)) (insecure demo_settings) = None \<and>
   tokens_authenticate demo_ext (endpoint (user demo_request)) (insecure demo_settings)
     ''tenant-2'' (token_id (user demo_request)) = Inl ClientException \<and>
   fst (switch demo_settings demo_ext demo_request ''tenant-2'' ''next'') =
     Inr (demo_request, Redirect ''/dashboard'')"
proof -
  have h: "tokens_authenticate demo_ext (endpoint (user demo_request)) (insecure demo_settings)
             ''tenant-2'' (token_id (user demo_request)) = Inl ClientException"
    by (simp add: demo_ext_def)
  have k: "keystone_client demo_ext (endpoint (user demo_request)) (insecure demo_settings) = None"
    by (simp add: demo_ext_def)
  have r: "redirect_to demo_settings demo_ext demo_request ''next'' = ''/dashboard''"
    by (simp add: redirect_to_def demo_request_def demo_ext_def same_host_relative_url_def
        has_scheme_def named_host_def slashes_def url_delimiter_def url_char_def)
  show ?thesis
    using h k r switch_client_error[OF k h, where rf = "''next''"] by simp
qed



section \<open>The token reaper's loop\<close>

lemma delete_loop_append:
  "delete_loop del ins ev w (xs @ ys) =
     (case delete_loop del ins ev w xs of
        (None, ev1, w1) \<Rightarrow> delete_loop del ins ev1 w1 ys
      | (Some e, ev1, w1) \<Rightarrow> (Some e, ev1, w1))"
proof (induction xs arbitrary: ev w)
  case Nil
  then show ?case by simp
next
  case (Cons t xs)
  show ?case
  proof (cases t)
    case Nil
    then show ?thesis by simp
  next
    case c1: (Cons ep r1)
    show ?thesis
    proof (cases r1)
      case Nil
      with c1 show ?thesis by simp
    next
      case c2: (Cons token r2)
      show ?thesis
        using c1 c2 Cons.IH
        by (simp split: prod.splits option.splits)
    qed
  qed
qed

lemma delete_loop_all:
  assumes "list_all (\<lambda>t. 2 \<le> length t) tokens"
    and "\<And>ep token w. fst (del ins ep token w) = None \<or> fst (del ins ep token w) = Some ClientException"
  shows "fst (delete_loop del ins ev w tokens) = None \<and>
         attempts (fst (snd (delete_loop del ins ev w tokens))) =
           attempts ev @ map (attempt_of ins) tokens"
  using assms(1)
proof (induction tokens arbitrary: ev w)
  case Nil
  then show ?case by simp
next
  case (Cons t ts)
  then obtain ep token r where t: "t = ep # token # r"
    by (cases t; cases "tl t") auto
  have ts: "list_all (\<lambda>t. 2 \<le> length t) ts" using Cons.prems by simp
  obtain res w' where d: "del ins ep token w = (res, w')" by (cases "del ins ep token w")
  have "res = None \<or> res = Some ClientException"
    using assms(2)[of ep token w] d by simp
  then show ?case
  proof
    assume "res = None"
    then show ?thesis
      using Cons.IH[OF ts, of "ev @ [Call_tokens_delete ep token ins]" w'] t d
      by (simp add: attempts_def attempt_of_def)
  next
    assume "res = Some ClientException"
    then show ?thesis
      using Cons.IH[OF ts, of "ev @ [Call_tokens_delete ep token ins, Log INFO ''Could not delete token'']" w'] t d
      by (simp add: attempts_def attempt_of_def)
  qed
qed

lemma delete_loop_events_grow:
  "\<exists>more. fst (snd (delete_loop del ins ev w tokens)) = ev @ more"
proof (induction tokens arbitrary: ev w)
  case Nil
  then show ?case by simp
next
  case (Cons t ts)
  show ?case
  proof (cases t)
    case Nil
    then show ?thesis by simp
  next
    case c1: (Cons ep r1)
    show ?thesis
    proof (cases r1)
      case Nil
      with c1 show ?thesis by simp
    next
      case c2: (Cons token r2)
      obtain res w' where d: "del ins ep token w = (res, w')" by (cases "del ins ep token w")
      show ?thesis
      proof (cases res)
        case None
        obtain m where "fst (snd (delete_loop del ins (ev @ [Call_tokens_delete ep token ins]) w' ts))
                         = (ev @ [Call_tokens_delete ep token ins]) @ m"
          using Cons.IH by blast
        then show ?thesis using c1 c2 d None by simp
      next
        case (Some e)
        obtain m where "fst (snd (delete_loop del ins
                 (ev @ [Call_tokens_delete ep token ins, Log INFO ''Could not delete token'']) w' ts))
                         = (ev @ [Call_tokens_delete ep token ins, Log INFO ''Could not delete token'']) @ m"
          using Cons.IH by blast
        then show ?thesis using c1 c2 d Some by simp
      qed
    qed
  qed
qed


lemma attempts_append: "attempts (xs @ ys) = attempts xs @ attempts ys"
  by (simp add: attempts_def)

lemma delete_loop_attempts_prefix:
  "\<exists>n\<le>length tokens. attempts (fst (snd (delete_loop del ins ev w tokens))) =
       attempts ev @ map (attempt_of ins) (take n tokens)"
proof (induction tokens arbitrary: ev w)
  case Nil
  then show ?case by simp
next
  case (Cons t ts)
  show ?case
  proof (cases "2 \<le> length t")
    case False
    then have "delete_loop del ins ev w (t # ts) = (Some IndexError, ev, w)"
      by (cases t; cases "tl t") auto
    then have "attempts (fst (snd (delete_loop del ins ev w (t # ts)))) =
                 attempts ev @ map (attempt_of ins) (take 0 (t # ts))"
      by simp
    then show ?thesis by blast
  next
    case True
    then obtain ep token r where t: "t = ep # token # r"
      by (cases t; cases "tl t") auto
    obtain res w' where d: "del ins ep token w = (res, w')" by (cases "del ins ep token w")
    have call: "attempt_of ins t = Call_tokens_delete ep token ins"
      by (simp add: t attempt_of_def)
    show ?thesis
    proof (cases "res = None \<or> res = Some ClientException")
      case False
      then have "delete_loop del ins ev w (t # ts) =
                   (res, ev @ [Call_tokens_delete ep token ins], w')"
        using t d by (cases res) auto
      then have "attempts (fst (snd (delete_loop del ins ev w (t # ts)))) =
                 attempts ev @ map (attempt_of ins) (take 1 (t # ts))"
        by (simp add: attempts_def call)
      moreover have "1 \<le> length (t # ts)" by simp
      ultimately show ?thesis by blast
    next
      case True
      define ev' where "ev' = (if res = None then ev @ [Call_tokens_delete ep token ins]
          else ev @ [Call_tokens_delete ep token ins, Log INFO ''Could not delete token''])"
      have step: "delete_loop del ins ev w (t # ts) = delete_loop del ins ev' w' ts"
        using True t d by (auto simp: ev'_def)
      have a: "attempts ev' = attempts ev @ [attempt_of ins t]"
        by (simp add: ev'_def attempts_def call)
      obtain n where n: "n \<le> length ts"
        "attempts (fst (snd (delete_loop del ins ev' w' ts))) =
           attempts ev' @ map (attempt_of ins) (take n ts)"
        using Cons.IH by blast
      have "attempts (fst (snd (delete_loop del ins ev w (t # ts)))) =
              attempts ev @ map (attempt_of ins) (take (Suc n) (t # ts))"
        using n(2) step a by simp
      moreover have "Suc n \<le> length (t # ts)" using n(1) by simp
      ultimately show ?thesis by blast
    qed
  qed
qed

lemma delete_loop_state:
  assumes "list_all (\<lambda>t. 2 \<le> length t) tokens"
    and "\<And>ep token w. fst (del ins ep token w) = None \<or> fst (del ins ep token w) = Some ClientException"
  shows "snd (snd (delete_loop del ins ev w tokens)) =
           fold (\<lambda>t w. snd (del ins (t ! 0) (t ! 1) w)) tokens w"
  using assms(1)
proof (induction tokens arbitrary: ev w)
  case Nil
  then show ?case by simp
next
  case (Cons t ts)
  then obtain ep token r where t: "t = ep # token # r"
    by (cases t; cases "tl t") auto
  have ts: "list_all (\<lambda>t. 2 \<le> length t) ts" using Cons.prems by simp
  obtain res w' where d: "del ins ep token w = (res, w')" by (cases "del ins ep token w")
  have "res = None \<or> res = Some ClientException"
    using assms(2)[of ep token w] d by simp
  then show ?case
  proof
    assume "res = None"
    then show ?thesis
      using Cons.IH[OF ts, of "ev @ [Call_tokens_delete ep token ins]" w'] t d by simp
  next
    assume "res = Some ClientException"
    then show ?thesis
      using Cons.IH[OF ts, of "ev @ [Call_tokens_delete ep token ins,
                                      Log INFO ''Could not delete token'']" w'] t d
      by simp
  qed
qed

text \<open>
  C6. On a token list whose items all have an endpoint and a token, with an identity
  service whose deletions fail with client errors only, let the deletion of the item
  \<open>t\<close> (after the items \<open>pre\<close>, before the items \<open>post\<close>) fail with a client
  error in the state the deletions of \<open>pre\<close> left. Then \<open>delete_all_tokens\<close>
  returns without an exception; the identity service ends in the state that the deletions
  of all the items, applied in order, lead to; the deletion attempts among the events are
  those of all the items, in order; and the events are those of the run on \<open>pre\<close>,
  the attempt for \<open>t\<close>, the log line of the failure, and events that hold the
  attempts for all of \<open>post\<close>.
\<close>

theorem reaper_continues_after_client_error:
  assumes pairs: "list_all (\<lambda>t. 2 \<le> length t) (pre @ t # post)"
    and client: "\<And>ep token w. fst (del (insecure st) ep token w) = None \<or>
                               fst (del (insecure st) ep token w) = Some ClientException"
    and fails: "del (insecure st) (t ! 0) (t ! 1)
                  (fold (\<lambda>t w. snd (del (insecure st) (t ! 0) (t ! 1) w)) pre w) =
                (Some ClientException, w2)"
  shows "fst (delete_all_tokens del st (pre @ t # post) w) = None \<and>
         snd (snd (delete_all_tokens del st (pre @ t # post) w)) =
           fold (\<lambda>t w. snd (del (insecure st) (t ! 0) (t ! 1) w)) (pre @ t # post) w \<and>
         snd (snd (delete_all_tokens del st (pre @ t # post) w)) =
           fold (\<lambda>t w. snd (del (insecure st) (t ! 0) (t ! 1) w)) post w2 \<and>
         attempts (fst (snd (delete_all_tokens del st (pre @ t # post) w))) =
           map (attempt_of (insecure st)) (pre @ t # post) \<and>
         (\<exists>rest. fst (snd (delete_all_tokens del st (pre @ t # post) w)) =
                   fst (snd (delete_all_tokens del st pre w)) @
                   [attempt_of (insecure st) t, Log INFO ''Could not delete token''] @ rest \<and>
                 attempts rest = map (attempt_of (insecure st)) post)"
proof -
  let ?ins = "insecure st"
  let ?step = "\<lambda>t w. snd (del ?ins (t ! 0) (t ! 1) w)"
  define ev1 where "ev1 = fst (snd (delete_loop del ?ins [] w pre))"
  define w1 where "w1 = fold ?step pre w"
  let ?ev2 = "ev1 @ [attempt_of ?ins t, Log INFO ''Could not delete token'']"
  have all: "fst (delete_loop del ?ins [] w (pre @ t # post)) = None \<and>
             attempts (fst (snd (delete_loop del ?ins [] w (pre @ t # post)))) =
               attempts [] @ map (attempt_of ?ins) (pre @ t # post)"
    using delete_loop_all[where del = del and ins = "insecure st", OF pairs client] .
  have state: "snd (snd (delete_loop del ?ins [] w (pre @ t # post))) =
                 fold ?step (pre @ t # post) w"
    using delete_loop_state[where del = del and ins = "insecure st", OF pairs client] .
  have p: "list_all (\<lambda>t. 2 \<le> length t) pre" and q: "list_all (\<lambda>t. 2 \<le> length t) post"
    and tt: "2 \<le> length t"
    using pairs by simp_all
  have "fst (delete_loop del ?ins [] w pre) = None"
    using delete_loop_all[where del = del and ins = "insecure st", OF p client] by blast
  moreover have "snd (snd (delete_loop del ?ins [] w pre)) = w1"
    unfolding w1_def
    using delete_loop_state[where del = del and ins = "insecure st", OF p client] .
  ultimately have r1: "delete_loop del ?ins [] w pre = (None, ev1, w1)"
    by (cases "delete_loop del ?ins [] w pre") (simp add: ev1_def)
  obtain ep token r where t: "t = ep # token # r"
    using tt by (cases t; cases "tl t") auto
  have fails': "del ?ins ep token w1 = (Some ClientException, w2)"
    using fails by (simp add: t w1_def)
  have step: "delete_loop del ?ins [] w (pre @ t # post) = delete_loop del ?ins ?ev2 w2 post"
    by (simp add: delete_loop_append r1 t fails' attempt_of_def)
  have after: "snd (snd (delete_loop del ?ins ?ev2 w2 post)) = fold ?step post w2"
    using delete_loop_state[where del = del and ins = "insecure st" and ev = ?ev2 and w = w2,
        OF q client] .
  obtain rest where rest: "fst (snd (delete_loop del ?ins ?ev2 w2 post)) = ?ev2 @ rest"
    using delete_loop_events_grow[where del = del and ins = ?ins and ev = ?ev2 and w = w2
        and tokens = post] by auto
  have e1: "attempts (fst (snd (delete_loop del ?ins ?ev2 w2 post))) =
          attempts ?ev2 @ map (attempt_of ?ins) post"
    using delete_loop_all[where del = del and ins = "insecure st" and ev = ?ev2 and w = w2,
        OF q client] by blast
  have "attempts ?ev2 @ attempts rest = attempts ?ev2 @ map (attempt_of ?ins) post"
    using e1[unfolded rest] by (simp only: attempts_append)
  then have "attempts rest = map (attempt_of ?ins) post"
    by (simp only: same_append_eq)
  then have last: "\<exists>rest. fst (snd (delete_loop del ?ins [] w (pre @ t # post))) =
                   fst (snd (delete_loop del ?ins [] w pre)) @
                   [attempt_of ?ins t, Log INFO ''Could not delete token''] @ rest \<and>
                 attempts rest = map (attempt_of ?ins) post"
    using step rest unfolding ev1_def by auto
  have all': "attempts (fst (snd (delete_loop del ?ins [] w (pre @ t # post)))) =
               map (attempt_of ?ins) (pre @ t # post)"
    using all by (simp add: attempts_def)
  show ?thesis
    unfolding delete_all_tokens_def
    using all all' state step after last by (simp only:)
qed

theorem reaper_continues_after_client_error_witness:
  "list_all (\<lambda>t. 2 \<le> length t) demo_token_list \<and>
   recording_delete False ''http://west:5000/v2.0'' ''bad'' [(''http://west:5000/v2.0'', ''t1'')] =
     (Some ClientException,
      [(''http://west:5000/v2.0'', ''t1''), (''http://west:5000/v2.0'', ''bad'')]) \<and>
   delete_all_tokens recording_delete demo_settings demo_token_list [] =
     (None,
      [Call_tokens_delete ''http://west:5000/v2.0'' ''t1'' False,
       Call_tokens_delete ''http://west:5000/v2.0'' ''bad'' False,
       Log INFO ''Could not delete token'',
       Call_tokens_delete ''http://east:5000/v2.0'' ''t3'' False],
      [(''http://west:5000/v2.0'', ''t1''), (''http://west:5000/v2.0'', ''bad''),
       (''http://east:5000/v2.0'', ''t3'')])"
proof -
  let ?pre = "[[''http://west:5000/v2.0'', ''t1'']]"
  let ?t = "[''http://west:5000/v2.0'', ''bad'']"
  let ?post = "[[''http://east:5000/v2.0'', ''t3'']]"
  let ?w2 = "[(''http://west:5000/v2.0'', ''t1''), (''http://west:5000/v2.0'', ''bad'')]"
  have l: "demo_token_list = ?pre @ ?t # ?post"
    by (simp add: demo_token_list_def)
  have i: "insecure demo_settings = False"
    by (simp add: insecure_def demo_settings_def)
  have a: "list_all (\<lambda>t. 2 \<le> length t) (?pre @ ?t # ?post)"
    by simp
  have b: "\<And>ep token w. fst (recording_delete (insecure demo_settings) ep token w) = None \<or>
             fst (recording_delete (insecure demo_settings) ep token w) = Some ClientException"
    by (simp add: recording_delete_def)
  have c: "recording_delete (insecure demo_settings) (?t ! 0) (?t ! 1)
             (fold (\<lambda>t w. snd (recording_delete (insecure demo_settings) (t ! 0) (t ! 1) w)) ?pre [])
           = (Some ClientException, ?w2)"
    by (simp add: recording_delete_def)
  have d: "recording_delete False ''http://west:5000/v2.0'' ''bad''
             [(''http://west:5000/v2.0'', ''t1'')] = (Some ClientException, ?w2)"
    by (simp add: recording_delete_def)
  have pre: "delete_all_tokens recording_delete demo_settings ?pre [] =
               (None, [Call_tokens_delete ''http://west:5000/v2.0'' ''t1'' False],
                [(''http://west:5000/v2.0'', ''t1'')])"
    by (simp add: delete_all_tokens_def i recording_delete_def)
  have th: "fst (delete_all_tokens recording_delete demo_settings (?pre @ ?t # ?post) []) = None"
    using reaper_continues_after_client_error[where del = recording_delete
        and st = demo_settings and pre = ?pre and t = ?t and post = ?post and w = "[]"
        and ?w2.0 = ?w2, OF a b c]
    by (rule conjunct1)
  have full: "snd (delete_all_tokens recording_delete demo_settings (?pre @ ?t # ?post) []) =
     ([Call_tokens_delete ''http://west:5000/v2.0'' ''t1'' False,
       Call_tokens_delete ''http://west:5000/v2.0'' ''bad'' False,
       Log INFO ''Could not delete token'',
       Call_tokens_delete ''http://east:5000/v2.0'' ''t3'' False],
      [(''http://west:5000/v2.0'', ''t1''), (''http://west:5000/v2.0'', ''bad''),
       (''http://east:5000/v2.0'', ''t3'')])"
    by (simp add: delete_all_tokens_def i recording_delete_def)
  have whole: "delete_all_tokens recording_delete demo_settings (?pre @ ?t # ?post) [] =
     (None,
      [Call_tokens_delete ''http://west:5000/v2.0'' ''t1'' False,
       Call_tokens_delete ''http://west:5000/v2.0'' ''bad'' False,
       Log INFO ''Could not delete token'',
       Call_tokens_delete ''http://east:5000/v2.0'' ''t3'' False],
      [(''http://west:5000/v2.0'', ''t1''), (''http://west:5000/v2.0'', ''bad''),
       (''http://east:5000/v2.0'', ''t3'')])"
    using th full by (metis prod.collapse)
  show ?thesis
    using a d whole unfolding l by (simp only: simp_thms)
qed

text \<open>
  C10. On a token list with an item \<open>bad\<close> of fewer than two elements,
  \<open>delete_all_tokens\<close> ends with an exception; the deletion attempts it made are
  those of some of the items before \<open>bad\<close>, so none is made for \<open>bad\<close> or for an
  item after it; and when the items before \<open>bad\<close> are processed without an
  exception, the exception is the \<^verbatim>\<open>IndexError\<close> of \<open>bad\<close>, raised with the
  events and the service state those items left.
\<close>

theorem reaper_stops_at_short_item:
  assumes short: "length bad < 2"
  shows "fst (delete_all_tokens del st (pre @ bad # post) w) \<noteq> None \<and>
         (\<exists>n\<le>length pre.
            attempts (fst (snd (delete_all_tokens del st (pre @ bad # post) w))) =
              map (attempt_of (insecure st)) (take n pre)) \<and>
         (fst (delete_all_tokens del st pre w) = None \<longrightarrow>
            delete_all_tokens del st (pre @ bad # post) w =
              (Some IndexError, snd (delete_all_tokens del st pre w)))"
proof -
  let ?ins = "insecure st"
  obtain r1 ev1 w1 where p: "delete_loop del ?ins [] w pre = (r1, ev1, w1)"
    by (cases "delete_loop del ?ins [] w pre") auto
  have b: "delete_loop del ?ins ev1 w1 (bad # post) = (Some IndexError, ev1, w1)"
    using short by (cases bad; cases "tl bad") auto
  have whole: "delete_loop del ?ins [] w (pre @ bad # post) =
                 (if r1 = None then (Some IndexError, ev1, w1) else (r1, ev1, w1))"
    using p b by (cases r1) (simp_all add: delete_loop_append)
  obtain n where n: "n \<le> length pre"
    "attempts (fst (snd (delete_loop del ?ins [] w pre))) =
       attempts [] @ map (attempt_of ?ins) (take n pre)"
    using delete_loop_attempts_prefix[where del = del and ins = ?ins and ev = "[]" and w = w
        and tokens = pre] by auto
  have "attempts (fst (snd (delete_loop del ?ins [] w (pre @ bad # post)))) =
          map (attempt_of ?ins) (take n pre)"
    using n(2) p whole by (simp add: attempts_def)
  then have "\<exists>n\<le>length pre.
            attempts (fst (snd (delete_loop del ?ins [] w (pre @ bad # post)))) =
              map (attempt_of ?ins) (take n pre)"
    using n(1) by blast
  then show ?thesis
    using whole p by (auto simp: delete_all_tokens_def)
qed

theorem reaper_stops_at_short_item_witness:
  "length [''http://west:5000/v2.0''] < 2 \<and>
   delete_all_tokens demo_delete demo_settings
     ([[''http://west:5000/v2.0'', ''bad'']] @ [''http://west:5000/v2.0''] #
      [[''http://east:5000/v2.0'', ''t3'']]) 0 =
     (Some IndexError,
      [Call_tokens_delete ''http://west:5000/v2.0'' ''bad'' False,
       Log INFO ''Could not delete token''], 1)"
proof -
  have s: "length [''http://west:5000/v2.0''] < 2" by simp
  have p: "delete_all_tokens demo_delete demo_settings [[''http://west:5000/v2.0'', ''bad'']] 0 =
             (None, [Call_tokens_delete ''http://west:5000/v2.0'' ''bad'' False,
                     Log INFO ''Could not delete token''], 1)"
    by (simp add: delete_all_tokens_def insecure_def demo_settings_def demo_delete_def)
  show ?thesis
    using s p reaper_stops_at_short_item[OF s, of demo_delete demo_settings
        "[[''http://west:5000/v2.0'', ''bad'']]" "[[''http://east:5000/v2.0'', ''t3'']]" 0]
    by simp
qed

section \<open>The copy handed to the reaper\<close>

lemma fold_mutate_lists:
  "c \<noteq> a \<Longrightarrow> lists (fold (mutate a) ms h) c = lists h c"
proof (induction ms arbitrary: h)
  case Nil
  then show ?case by simp
next
  case (Cons m ms)
  have "lists (mutate a m h) c = lists h c"
    using Cons.prems by (cases m) (simp_all split: pyobj.splits)
  then show ?case using Cons by simp
qed

lemma fold_mutate_list_only:
  "list_all is_list_mutation ms \<Longrightarrow> objects (fold (mutate a) ms h) = objects h"
proof (induction ms arbitrary: h)
  case Nil
  then show ?case by simp
next
  case (Cons m ms)
  have "objects (mutate a m h) = objects h"
    using Cons.prems by (cases m) simp_all
  then show ?case using Cons by simp
qed

lemma fold_mutate_tuple:
  "is_tuple (objects h r) \<Longrightarrow> objects (fold (mutate a) ms h) r = objects h r"
proof (induction ms arbitrary: h)
  case Nil
  then show ?case by simp
next
  case (Cons m ms)
  have same: "objects (mutate a m h) r = objects h r"
    using Cons.prems by (cases m) (auto split: pyobj.splits)
  then have "is_tuple (objects (mutate a m h) r)"
    using Cons.prems by simp
  then show ?case using Cons.IH same by simp
qed

text \<open>
  The claim C7 as it is stated fails on a token list with a mutable item: the copy is
  shallow, so the item is shared. After \<open>logout\<close> has started the thread on the list
  object 1, the assignment \<^verbatim>\<open>request.session['token_list'][1][1] = 'other'\<close> changes
  what the thread processes when it runs.
\<close>

theorem logout_shares_items_counterexample:
  "token_list (session demo_request) = Some 0 \<and>
   fst (snd (logout demo_ext demo_request shared_heap)) = Some 1 \<and>
   contents shared_heap 0 =
     [[''http://west:5000/v2.0'', ''t1''], [''http://west:5000/v2.0'', ''t2'']] \<and>
   contents (mutate 0 (Mutate_item 1 demo_change)
               (fst (snd (snd (logout demo_ext demo_request shared_heap))))) 1 =
     [[''http://west:5000/v2.0'', ''t1''], [''http://west:5000/v2.0'', ''other'']] \<and>
   snd (snd (run_thread recording_delete demo_settings
          (mutate 0 (Mutate_item 1 demo_change)
             (fst (snd (snd (logout demo_ext demo_request shared_heap))))) 1 [])) =
     [(''http://west:5000/v2.0'', ''t1''), (''http://west:5000/v2.0'', ''other'')]"
  by (simp add: logout_def py_list_def demo_request_def demo_session_def shared_heap_def
      contents_def demo_change_def run_thread_def delete_all_tokens_def recording_delete_def
      Let_def)

text \<open>
  C7, amended. When the session has a \<open>token_list\<close> (an allocated list object
  \<open>a\<close>), \<open>logout\<close> starts the thread on a new list object \<open>c\<close> that holds the item
  references \<open>a\<close> holds at the dispatch. Whatever changes \<open>ms\<close> the request side then
  makes through \<open>a\<close>, \<open>c\<close> keeps those item references; and when the changes are
  in-place changes of the list object \<open>a\<close> only, or when the items are tuples, the
  thread, when it runs, processes the content \<open>a\<close> had at the dispatch.
\<close>

theorem logout_dispatches_copy:
  assumes tl: "token_list (session req) = Some a"
    and alloc: "a < next_ref h"
    and lo: "logout ext req h = (out, thread, h', ev)"
  shows "\<exists>c. thread = Some c \<and> c \<noteq> a \<and> lists h' c = lists h a \<and> objects h' = objects h \<and>
             lists (fold (mutate a) ms h') c = lists h a \<and>
             (list_all is_list_mutation ms \<or> list_all (\<lambda>r. is_tuple (objects h r)) (lists h a)
                \<longrightarrow> run_thread del st (fold (mutate a) ms h') c w =
                      delete_all_tokens del st (contents h a) w)"
proof -
  let ?c = "next_ref h"
  let ?h2 = "fold (mutate a) ms h'"
  have c: "?c \<noteq> a" using alloc by simp
  have t: "thread = Some ?c" and h': "h' = snd (py_list h a)"
    using lo tl by (simp_all add: logout_def py_list_def Let_def)
  have copy: "lists h' ?c = lists h a" and objs: "objects h' = objects h"
    by (simp_all add: h' py_list_def)
  have kept: "lists ?h2 ?c = lists h a"
    using fold_mutate_lists[OF c, of ms h'] copy by simp
  have one: "contents ?h2 ?c = contents h a" if "list_all is_list_mutation ms"
    using fold_mutate_list_only[OF that, of a h'] kept objs by (simp add: contents_def)
  have two: "contents ?h2 ?c = contents h a"
    if tup: "list_all (\<lambda>r. is_tuple (objects h r)) (lists h a)"
  proof -
    have "objects ?h2 r = objects h r" if "r \<in> set (lists h a)" for r
    proof -
      have "is_tuple (objects h' r)"
        using tup that objs by (simp add: list_all_iff)
      then show ?thesis
        using fold_mutate_tuple[of h' r a ms] objs by simp
    qed
    then show ?thesis
      using kept by (simp add: contents_def)
  qed
  show ?thesis
    using c t copy objs kept one two by (auto simp: run_thread_def)
qed

theorem logout_dispatches_copy_witness:
  "token_list (session demo_request) = Some 0 \<and> 0 < next_ref demo_heap \<and>
   list_all (\<lambda>r. is_tuple (objects demo_heap r)) (lists demo_heap 0) \<and>
   contents demo_heap 0 = demo_token_list \<and>
   fst (snd (logout demo_ext demo_request demo_heap)) = Some 1 \<and>
   lists (fold (mutate 0) [Mutate_list (\<lambda>l. l @ [7]), Mutate_item 1 demo_change, Mutate_list (\<lambda>l. [])]
            (fst (snd (snd (logout demo_ext demo_request demo_heap))))) 0 = [] \<and>
   run_thread recording_delete demo_settings
     (fold (mutate 0) [Mutate_list (\<lambda>l. l @ [7]), Mutate_item 1 demo_change, Mutate_list (\<lambda>l. [])]
        (fst (snd (snd (logout demo_ext demo_request demo_heap))))) 1 [] =
   delete_all_tokens recording_delete demo_settings demo_token_list []"
proof -
  let ?ms = "[Mutate_list (\<lambda>l. l @ [7]), Mutate_item 1 demo_change, Mutate_list (\<lambda>l. [])]"
  have a: "token_list (session demo_request) = Some 0"
    by (simp add: demo_request_def demo_session_def)
  have b: "0 < next_ref demo_heap"
    by (simp add: demo_heap_def)
  have tup: "list_all (\<lambda>r. is_tuple (objects demo_heap r)) (lists demo_heap 0)"
    by (simp add: demo_heap_def)
  have cont: "contents demo_heap 0 = demo_token_list"
    by (simp add: contents_def demo_heap_def demo_token_list_def)
  obtain out thread h' ev where l: "logout demo_ext demo_request demo_heap = (out, thread, h', ev)"
    by (cases "logout demo_ext demo_request demo_heap") auto
  have t: "thread = Some 1"
    using l a by (simp add: logout_def py_list_def demo_heap_def Let_def)
  have m: "lists (fold (mutate 0) ?ms h') 0 = []"
    by (simp split: pyobj.splits)
  show ?thesis
    using a b tup cont t m l
      logout_dispatches_copy[OF a b l, where ms = ?ms and del = recording_delete
        and st = demo_settings and w = "[]"]
    by auto
qed

section \<open>The URL of the ticket exchange\<close>

text \<open>
  C8. \<open>retrieve_cas_token\<close> and \<open>retrieve_cas_url\<close> make one request of the
  identity service, a POST to \<open>auth_url @ ''/tokens''\<close> with the credentials as body:
  the state of the service after the call, the result read from the response and the
  event are those of that request. The value \<open>urljoin\<close> computes occurs nowhere in
  the outcome: it is not used.
\<close>

theorem cas_exchange_ignores_urljoin:
  "retrieve_cas_token urljoin http auth_url ins ticket service w =
     (case http auth_url ins (auth_url @ ''/tokens'') ''POST''
             (JObject [(''auth'', JObject [(''casCredentials'',
                JObject [(''ticket'', JString ticket), (''service'', JString service)])])]) w of
        (resp, w') \<Rightarrow>
          (case resp of
             Inl e \<Rightarrow> Inl e
           | Inr body \<Rightarrow>
               (case getitem body ''access'' of
                  Inl e \<Rightarrow> Inl e
                | Inr access \<Rightarrow>
                    (case getitem access ''token'' of
                       Inl e \<Rightarrow> Inl e
                     | Inr token \<Rightarrow> getitem token ''id'')),
           [Call_http_request (auth_url @ ''/tokens'') ''POST''
              (JObject [(''auth'', JObject [(''casCredentials'',
                 JObject [(''ticket'', JString ticket), (''service'', JString service)])])])],
           w')) \<and>
   retrieve_cas_url urljoin http auth_url ins service w =
     (case http auth_url ins (auth_url @ ''/tokens'') ''POST''
             (JObject [(''auth'', JObject [(''casCredentials'',
                JObject [(''service'', JString service)])])]) w of
        (resp, w') \<Rightarrow>
          (case resp of Inl e \<Rightarrow> Inl e | Inr body \<Rightarrow> getitem body ''cas_login_url'',
           [Call_http_request (auth_url @ ''/tokens'') ''POST''
              (JObject [(''auth'', JObject [(''casCredentials'',
                 JObject [(''service'', JString service)])])])],
           w'))"
  by (simp add: retrieve_cas_token_def retrieve_cas_url_def Let_def
      split: prod.splits sum.splits)

theorem cas_exchange_ignores_urljoin_witness:
  "demo_urljoin ''http://west:5000/v2.0'' ''tokens'' \<noteq> ''http://west:5000/v2.0'' @ ''/tokens'' \<and>
   retrieve_cas_token demo_urljoin demo_http ''http://west:5000/v2.0'' False ''ST-1''
       ''http://myapp.example/'' [] =
     (Inr (JString ''unscoped-1''),
      [Call_http_request ''http://west:5000/v2.0/tokens'' ''POST''
        (JObject [(''auth'', JObject [(''casCredentials'',
           JObject [(''ticket'', JString ''ST-1''),
                    (''service'', JString ''http://myapp.example/'')])])])],
      [(''http://west:5000/v2.0/tokens'', ''POST'')]) \<and>
   retrieve_cas_url demo_urljoin demo_http ''http://west:5000/v2.0'' False
       ''http://myapp.example/'' [] =
     (Inr (JString ''https://cas.example/login''),
      [Call_http_request ''http://west:5000/v2.0/tokens'' ''POST''
        (JObject [(''auth'', JObject [(''casCredentials'',
           JObject [(''service'', JString ''http://myapp.example/'')])])])],
      [(''http://west:5000/v2.0/tokens'', ''POST'')])"
  using cas_exchange_ignores_urljoin[of demo_urljoin demo_http "''http://west:5000/v2.0''" False
      "''ST-1''" "''http://myapp.example/''" "[]"]
  by (simp add: demo_http_def demo_urljoin_def py_dict_def)

end
